theory Spec2Isabelle
  imports Complex_Main "HOL-Library.Word" "HOL-Library.Log_Nat"
begin

unbundle bit_operations_syntax

section \<open>GM1356 sound level meter logger: the protocol codec of main.go\<close>

subsection \<open>Bytes, float64 values and text rendering\<close>

type_synonym byte = "8 word"
type_synonym uint16 = "16 word"

text \<open>
  A finite \<open>float64\<close> is represented by the rational number it denotes. The only
  floating-point operations of main.go are the conversion \<open>float64(x)\<close> of a
  \<open>uint16\<close>, which is exact, and one division by the constant \<open>10.0\<close>. IEEE 754
  division returns the quotient rounded to the nearest value with a 53-bit
  significand, ties to even; \<open>f64_round\<close> is that rounding, with the gradual
  underflow of subnormals (the exponent is clamped at \<open>-1022\<close>). Overflow to
  infinity is outside the model: it needs a magnitude of \<open>2 ^ 1024\<close>.
\<close>

type_synonym float64 = rat

definition round_half_even :: "rat \<Rightarrow> int" where
  "round_half_even x =
     (let f = \<lfloor>x\<rfloor>; r = x - of_int f
      in if r < 1 / 2 then f
         else if 1 / 2 < r then f + 1
         else if even f then f else f + 1)"

text \<open>\<open>ilog2 q\<close> is the binary exponent \<open>\<lfloor>log\<^sub>2 q\<rfloor>\<close> of a positive rational.\<close>

definition ilog2 :: "rat \<Rightarrow> int" where
  "ilog2 q =
     (if 1 \<le> q then int (floorlog 2 (nat \<lfloor>q\<rfloor>)) - 1
      else - int (floorlog 2 (nat \<lceil>1 / q\<rceil> - 1)))"

definition f64_round :: "rat \<Rightarrow> float64" where
  "f64_round q =
     (if q = 0 then 0
      else let e = max (ilog2 \<bar>q\<bar>) (- 1022);
               m = round_half_even (\<bar>q\<bar> * 2 powi (52 - e))
           in sgn q * of_int m * 2 powi (e - 52))"

definition f64_of_uint16 :: "uint16 \<Rightarrow> float64" where
  "f64_of_uint16 w = of_nat (unat w)"

definition f64_div :: "float64 \<Rightarrow> float64 \<Rightarrow> float64" where
  "f64_div a b = f64_round (a / b)"

text \<open>Decimal digits of a natural number, as \<open>%d\<close> prints them.\<close>

fun dec :: "nat \<Rightarrow> string" where
  "dec n = (if n < 10 then [''0123456789'' ! n]
            else dec (n div 10) @ [''0123456789'' ! (n mod 10)])"

declare dec.simps [simp del]

text \<open>
  \<open>fmt.Sprintf("%.1f", x)\<close>: the value rounded to one fractional digit (the exact
  decimal expansion of the double, correctly rounded, ties to even), printed as
  sign, integer digits, a point and one digit.
\<close>

definition sprintf_1f :: "float64 \<Rightarrow> string" where
  "sprintf_1f x =
     (let t = nat (round_half_even (\<bar>x\<bar> * 10))
      in (if x < 0 then ''-'' else '''') @ dec (t div 10) @ ''.'' @ dec (t mod 10))"

text \<open>Zero-padded decimal field of a given width, as the time layout prints them.\<close>

definition zpad :: "nat \<Rightarrow> nat \<Rightarrow> string" where
  "zpad w n = replicate (w - length (dec n)) (CHR ''0'') @ dec n"

subsection \<open>The clock\<close>

text \<open>
  \<open>time.Now().UTC()\<close> reads the wall clock. The value read is an input of the model:
  the broken-down UTC time. \<open>format_utc\<close> is
  \<open>Format("2006-01-02 15:04:05 UTC")\<close>, in which the letters \<open>UTC\<close> are literal text.
\<close>

record utc_time =
  t_year :: nat
  t_month :: nat
  t_day :: nat
  t_hour :: nat
  t_minute :: nat
  t_second :: nat

definition format_utc :: "utc_time \<Rightarrow> string" where
  "format_utc t =
     zpad 4 (t_year t) @ ''-'' @ zpad 2 (t_month t) @ ''-'' @ zpad 2 (t_day t) @ '' '' @
     zpad 2 (t_hour t) @ '':'' @ zpad 2 (t_minute t) @ '':'' @ zpad 2 (t_second t) @ '' UTC''"

subsection \<open>Data model\<close>

text \<open>\<open>DecibelReading\<close>: the parsed data of one frame.\<close>

record DecibelReading =
  Timestamp :: string
  Measured :: float64
  Mode :: string
  FreqMode :: string
  Range' :: string

text \<open>The capture command: \<open>0xB3\<close> and seven zero bytes.\<close>

definition commandCapture :: "byte list" where
  "commandCapture = [0xB3, 0x00, 0x00, 0x00, 0x00, 0x00, 0x00, 0x00]"

text \<open>The range table, a Go map from the low nibble to the label.\<close>

definition rangeMap :: "byte \<rightharpoonup> string" where
  "rangeMap = map_of
     [(0x0, ''30-130''),
      (0x1, ''30-80''),
      (0x2, ''50-100''),
      (0x3, ''60-110''),
      (0x4, ''80-130'')]"

text \<open>An index out of the bounds of a slice is a run-time panic in Go.\<close>

datatype panic = IndexOutOfRange

subsection \<open>The decoders\<close>

definition parseMode :: "byte \<Rightarrow> string" where
  "parseMode b = (if b AND 0x40 \<noteq> 0 then ''fast'' else ''slow'')"

definition parseFreqMode :: "byte \<Rightarrow> string" where
  "parseFreqMode b = (if b AND 0x10 \<noteq> 0 \<or> b AND 0x80 \<noteq> 0 then ''dBC'' else ''dBA'')"

definition parseRange :: "byte \<Rightarrow> string" where
  "parseRange b =
     (case rangeMap (b AND 0x0F) of
        Some rangeStr \<Rightarrow> rangeStr
      | None \<Rightarrow> ''unknown'')"

text \<open>
  \<open>parseDecibelData\<close> reads \<open>buf[0]\<close>, \<open>buf[1]\<close> and \<open>buf[2]\<close>; on a slice shorter than
  three bytes the first missing index panics. The clock value \<open>now\<close> is what
  \<open>time.Now().UTC()\<close> returns during the call.
\<close>

definition parseDecibelData :: "utc_time \<Rightarrow> byte list \<Rightarrow> panic + DecibelReading" where
  "parseDecibelData now buf =
     (if length buf < 3 then Inl IndexOutOfRange
      else
        let measured =
              f64_div (f64_of_uint16 (push_bit 8 (ucast (buf ! 0) :: uint16) OR ucast (buf ! 1))) 10;
            mode = parseMode (buf ! 2);
            freqMode = parseFreqMode (buf ! 2);
            rangeStr = parseRange (buf ! 2)
        in Inr \<lparr>Timestamp = format_utc now,
                Measured = measured,
                Mode = mode,
                FreqMode = freqMode,
                Range' = rangeStr\<rparr>)"

subsection \<open>Device, console and file system\<close>

text \<open>
  Go \<open>error\<close> values. \<open>DeviceError\<close> is an error reported by the HID library or the
  operating system; the other constructors are the \<open>fmt.Errorf\<close> wrappers of
  main.go, holding the values their format strings print (\<open>None\<close> is a \<open>nil\<close>
  error printed by \<open>%v\<close>).
\<close>

datatype err =
    DeviceError string
  | SendFailed int "err option"
  | InitialSendFailed err
  | InitialReadFailed "err option"

text \<open>
  The device is an external collaborator: what \<open>device.Write\<close> and \<open>device.Read\<close>
  return is an input of the model. A write returns a byte count and an error. A
  read returns a byte count and an error, and stores the bytes \<open>r_data\<close> at the
  front of the caller's buffer.
\<close>

record write_result =
  w_n :: int
  w_err :: "err option"

record read_result =
  r_n :: int
  r_err :: "err option"
  r_data :: "byte list"

text \<open>The buffer after a read: its length never changes, bytes not overwritten stay.\<close>

definition store :: "byte list \<Rightarrow> byte list \<Rightarrow> byte list" where
  "store buf data = take (length buf) data @ drop (length data) buf"

datatype out_line =
    Connected
  | CurrentMode string string string
  | CommandSent "byte list"
  | RawDataRead int "byte list"
  | JsonLine DecibelReading
  | Exiting

datatype log_line =
    FatalInit err
  | FatalOpenDevice err
  | FatalOpenLog err
  | WarnCurrentMode err
  | ErrSendingCapture err
  | ErrReadingData err

text \<open>
  The observable world: the lines printed on standard output, the lines of the
  \<open>log\<close> package, and the files, each a list of CSV records. Writes to an open
  file succeed (main.go ignores their errors), and the two sleeps of 500 ms are
  not part of the model.
\<close>

record world =
  stdout :: "out_line list"
  logged :: "log_line list"
  files :: "string \<rightharpoonup> string list list"

definition printed :: "out_line \<Rightarrow> world \<Rightarrow> world" where
  "printed l w = w\<lparr>stdout := stdout w @ [l]\<rparr>"

definition log_printf :: "log_line \<Rightarrow> world \<Rightarrow> world" where
  "log_printf l w = w\<lparr>logged := logged w @ [l]\<rparr>"

text \<open>\<open>csv.Writer.Write\<close> followed by \<open>Flush\<close> on a file opened with \<open>O_APPEND\<close>.\<close>

definition csv_write :: "string \<Rightarrow> string list \<Rightarrow> world \<Rightarrow> world" where
  "csv_write path record w =
     w\<lparr>files := (files w)(path \<mapsto> (case files w path of None \<Rightarrow> [] | Some rows \<Rightarrow> rows) @ [record])\<rparr>"

subsection \<open>Setting up the CSV log\<close>



subsection \<open>Talking to the device\<close>

definition sendCommand :: "write_result \<Rightarrow> byte list \<Rightarrow> world \<Rightarrow> err option \<times> world" where
  "sendCommand wr command w =
     (if w_err wr \<noteq> None \<or> w_n wr \<noteq> 8
      then (Some (SendFailed (w_n wr) (w_err wr)), w)
      else (None, printed (CommandSent command) w))"

definition readCurrentMode ::
  "write_result \<Rightarrow> read_result \<Rightarrow> world \<Rightarrow> (string \<times> string \<times> string \<times> err option) \<times> world" where
  "readCurrentMode wr rd w =
     (let buf = replicate 8 (0 :: byte)
      in case sendCommand wr commandCapture w of
           (Some e, w1) \<Rightarrow>
             ((''unknown'', ''unknown'', ''unknown'', Some (InitialSendFailed e)), w1)
         | (None, w1) \<Rightarrow>
             let buf1 = store buf (r_data rd)
             in if r_err rd \<noteq> None \<or> r_n rd < 6
                then ((''unknown'', ''unknown'', ''unknown'', Some (InitialReadFailed (r_err rd))), w1)
                else ((parseMode (buf1 ! 2), parseFreqMode (buf1 ! 2), parseRange (buf1 ! 2), None), w1))"

subsection \<open>The polling loop\<close>

text \<open>
  One iteration of \<open>readDecibelData\<close> in which \<open>stop\<close> has not fired meets a
  \<open>tick\<close> of the environment: the outcome of the write, the outcome of the read
  (consulted only when the command was sent), and the clock. The CSV writer is
  \<open>None\<close> for \<open>nil\<close>. The state of the loop is the buffer \<open>buf\<close>, allocated once
  and reused, and the world.
\<close>

record tick =
  tick_wr :: write_result
  tick_rd :: read_result
  tick_now :: utc_time

definition csv_record :: "DecibelReading \<Rightarrow> string list" where
  "csv_record data =
     [Timestamp data, sprintf_1f (Measured data), Mode data, FreqMode data, Range' data]"

definition poll_iteration ::
  "string option \<Rightarrow> tick \<Rightarrow> byte list \<times> world \<Rightarrow> panic + byte list \<times> world" where
  "poll_iteration csvWriter t s =
     (case s of (buf, w) \<Rightarrow>
        (case sendCommand (tick_wr t) commandCapture w of
           (Some e, w1) \<Rightarrow> Inr (buf, log_printf (ErrSendingCapture e) w1)
         | (None, w1) \<Rightarrow>
             let buf1 = store buf (r_data (tick_rd t))
             in (case r_err (tick_rd t) of
                   Some e \<Rightarrow> Inr (buf1, log_printf (ErrReadingData e) w1)
                 | None \<Rightarrow>
                     if r_n (tick_rd t) > 0 then
                       let w2 = printed (RawDataRead (r_n (tick_rd t)) buf1) w1
                       in (case parseDecibelData (tick_now t) buf1 of
                             Inl p \<Rightarrow> Inl p
                           | Inr data \<Rightarrow>
                               let w3 = printed (JsonLine data) w2
                               in (case csvWriter of
                                     Some path \<Rightarrow> Inr (buf1, csv_write path (csv_record data) w3)
                                   | None \<Rightarrow> Inr (buf1, w3)))
                     else Inr (buf1, w1))))"

text \<open>
  The loop runs one iteration per tick; when the ticks are used up \<open>stop\<close> has
  fired and the loop returns. A panic ends the run.
\<close>

fun poll_loop :: "string option \<Rightarrow> tick list \<Rightarrow> byte list \<times> world \<Rightarrow> panic + byte list \<times> world" where
  "poll_loop csvWriter [] s = Inr s"
| "poll_loop csvWriter (t # ts) s =
     (case poll_iteration csvWriter t s of
        Inl p \<Rightarrow> Inl p
      | Inr s' \<Rightarrow> poll_loop csvWriter ts s')"


subsection \<open>The program\<close>




text \<open>The readings printed as JSON on standard output, in order.\<close>

fun published :: "out_line list \<Rightarrow> DecibelReading list" where
  "published [] = []"
| "published (JsonLine data # ls) = data # published ls"
| "published (l # ls) = published ls"



section \<open>Properties of the codec\<close>

subsection \<open>Rounding\<close>

lemma round_choice_err:
  fixes x :: rat and f :: int
  assumes "0 \<le> x - of_int f" "x - of_int f < 1"
  shows "\<bar>of_int (if x - of_int f < 1 / 2 then f
                 else if 1 / 2 < x - of_int f then f + 1
                 else if even f then f else f + 1) - x\<bar> \<le> 1 / 2"
  using assms by (auto simp add: abs_if)

lemma round_half_even_err: "\<bar>of_int (round_half_even x) - x\<bar> \<le> 1 / 2"
  unfolding round_half_even_def Let_def by (rule round_choice_err) linarith+

lemma round_half_even_near:
  assumes "\<bar>x - of_int k\<bar> < 1 / 2"
  shows "round_half_even x = k"
proof -
  have "\<bar>of_int (round_half_even x) - x\<bar> \<le> 1 / 2" by (rule round_half_even_err)
  with assms have "\<bar>(of_int (round_half_even x) :: rat) - of_int k\<bar> < 1" by linarith
  then have "\<bar>(of_int (round_half_even x - k) :: rat)\<bar> < 1" by simp
  then have "\<bar>round_half_even x - k\<bar> < 1"
    by (metis of_int_abs of_int_less_1_iff)
  then show ?thesis by linarith
qed

lemma round_half_even_nonneg: "0 \<le> x \<Longrightarrow> 0 \<le> round_half_even x"
  by (auto simp add: round_half_even_def Let_def)

lemma ilog2_le:
  assumes "0 < q" "q < 8192"
  shows "ilog2 q \<le> 12"
proof (cases "1 \<le> q")
  case True
  have "nat \<lfloor>q\<rfloor> < 2 ^ 13" using assms by (simp add: nat_less_iff floor_less_iff)
  then have "floorlog 2 (nat \<lfloor>q\<rfloor>) \<le> 13" by (intro floorlog_leI) simp_all
  with True show ?thesis by (simp add: ilog2_def)
next
  case False
  then show ?thesis by (simp add: ilog2_def)
qed

lemma f64_round_nonneg: "0 \<le> q \<Longrightarrow> 0 \<le> f64_round q"
  by (auto simp add: f64_round_def Let_def sgn_if intro!: mult_nonneg_nonneg round_half_even_nonneg)

text \<open>Below 8192 a double is within \<open>2\<^sup>-\<^sup>4\<^sup>1\<close> of the number it rounds.\<close>

lemma f64_round_err:
  assumes "0 \<le> q" "q < 8192"
  shows "\<bar>f64_round q - q\<bar> \<le> 1 / 2 ^ 41"
proof (cases "q = 0")
  case True
  then show ?thesis by (simp add: f64_round_def)
next
  case False
  with assms have pos: "0 < q" by simp
  define e where "e = max (ilog2 q) (- 1022)"
  define s where "s = nat (52 - e)"
  define m where "m = round_half_even (q * 2 ^ s)"
  have e: "e \<le> 12" using ilog2_le [OF pos assms(2)] by (simp add: e_def)
  then have s: "40 \<le> s" and se: "52 - e = int s" "e - 52 = - int s" by (simp_all add: s_def)
  have r: "f64_round q = of_int m / 2 ^ s"
    using pos by (simp add: f64_round_def Let_def e_def [symmetric] se power_int_minus m_def field_simps)
  have "\<bar>of_int m - q * 2 ^ s\<bar> \<le> 1 / 2" unfolding m_def by (rule round_half_even_err)
  then have "\<bar>(of_int m - q * 2 ^ s) / 2 ^ s\<bar> \<le> (1 / 2) / 2 ^ s"
    unfolding abs_divide by (simp add: divide_right_mono del: divide_divide_eq_left)
  then have "\<bar>f64_round q - q\<bar> \<le> 1 / 2 ^ (Suc s)"
    by (simp add: r diff_divide_distrib)
  also have "\<dots> \<le> 1 / 2 ^ 41"
  proof -
    have "(2::rat) ^ 41 \<le> 2 ^ Suc s" using s by (intro power_increasing) simp_all
    then show ?thesis by (simp add: frac_le del: power_Suc)
  qed
  finally show ?thesis .
qed

lemma tenths_exact:
  assumes "k < 65536"
  shows "round_half_even (\<bar>f64_div (of_nat k) 10\<bar> * 10) = int k"
proof -
  define q :: rat where "q = of_nat k / 10"
  have q: "0 \<le> q" "q < 8192" using assms by (simp_all add: q_def)
  have nn: "0 \<le> f64_round q" using q(1) by (rule f64_round_nonneg)
  have "\<bar>f64_round q - q\<bar> \<le> 1 / 2 ^ 41" using q by (rule f64_round_err)
  then have "\<bar>f64_round q * 10 - q * 10\<bar> \<le> 10 / 2 ^ 41" by linarith
  then have "\<bar>f64_round q * 10 - of_int (int k)\<bar> < 1 / 2" by (simp add: q_def)
  then have "round_half_even (f64_round q * 10) = int k" by (rule round_half_even_near)
  with nn show ?thesis by (simp add: f64_div_def q_def)
qed

lemma f64_div_nat_nonneg: "0 \<le> f64_div (of_nat k) 10"
  unfolding f64_div_def by (rule f64_round_nonneg) simp

lemma sprintf_1f_tenths:
  assumes "k < 65536"
  shows "sprintf_1f (f64_div (of_nat k) 10) = dec (k div 10) @ ''.'' @ dec (k mod 10)"
proof -
  have nn: "0 \<le> f64_div (of_nat k) 10" by (rule f64_div_nat_nonneg)
  then have "\<not> f64_div (of_nat k) 10 < 0" by simp
  moreover from nn have "\<bar>f64_div (of_nat k) 10\<bar> = f64_div (of_nat k) 10" by simp
  ultimately show ?thesis
    using tenths_exact [OF assms] by (simp add: sprintf_1f_def Let_def)
qed

subsection \<open>Bytes\<close>

lemma or_disjoint_add:
  "push_bit 8 (ucast (hi::byte) :: uint16) OR ucast (lo::byte) = push_bit 8 (ucast hi) + ucast lo"
  apply (rule disjunctive_add_eq_or [symmetric])
  apply (rule bit_eqI)
  apply (auto simp add: bit_simps dest: bit_imp_le_length)
  done

lemma unat_of_nat16: "n < 65536 \<Longrightarrow> unat (of_nat n :: uint16) = n"
  by (simp add: unat_of_nat)

lemma unat_byte_less: "unat (b :: byte) < 256"
  using unsigned_less [of b] by simp

lemma big_endian_unat:
  "unat (push_bit 8 (ucast (hi::byte) :: uint16) OR ucast (lo::byte)) = 256 * unat hi + unat lo"
proof -
  have "push_bit 8 (ucast hi :: uint16) + ucast lo = of_nat (256 * unat hi + unat lo)"
    by (simp add: push_bit_eq_mult)
  moreover have "unat (of_nat (256 * unat hi + unat lo) :: uint16) = 256 * unat hi + unat lo"
    by (rule unat_of_nat16) (use unat_byte_less [of hi] unat_byte_less [of lo] in linarith)
  ultimately show ?thesis by (simp only: or_disjoint_add)
qed

lemma big_endian_less: "256 * unat (hi::byte) + unat (lo::byte) < 65536"
  using unat_byte_less [of hi] unat_byte_less [of lo] by linarith

lemma and_bit4: "(b AND 0x10 \<noteq> 0) = bit (b::byte) 4"
  using and_exp_eq_0_iff_not_bit [of b 4] by simp

lemma and_bit7: "(b AND 0x80 \<noteq> 0) = bit (b::byte) 7"
  using and_exp_eq_0_iff_not_bit [of b 7] by simp

lemma low_nibble_unat: "unat ((b::byte) AND 0x0F) = unat b mod 16"
proof -
  have "b AND 0x0F = take_bit 4 b" using take_bit_eq_mask [of 4 b] by (simp add: mask_eq_exp_minus_1)
  then show ?thesis by (simp add: unsigned_take_bit_eq take_bit_eq_mod unat_mod_distrib)
qed

subsection \<open>Decoding a frame\<close>

lemma parseDecibelData_Inr:
  "3 \<le> length buf \<Longrightarrow> parseDecibelData now buf =
     Inr \<lparr>Timestamp = format_utc now,
          Measured = f64_div (of_nat (256 * unat (buf ! 0) + unat (buf ! 1))) 10,
          Mode = parseMode (buf ! 2), FreqMode = parseFreqMode (buf ! 2), Range' = parseRange (buf ! 2)\<rparr>"
  by (simp add: parseDecibelData_def f64_of_uint16_def big_endian_unat Let_def)

lemma frame_nths:
  assumes "length frame = 8" "take 3 frame = [a, b, c]"
  shows "frame ! 0 = a" "frame ! 1 = b" "frame ! 2 = c"
proof -
  have "take 3 frame ! i = frame ! i" if "i < 3" for i using that by simp
  from this [of 0] this [of 1] this [of 2] assms(2)
  show "frame ! 0 = a" "frame ! 1 = b" "frame ! 2 = c" by simp_all
qed

lemma f64_div_450: "f64_div 450 10 = 45"
  by code_simp

lemma format_utc_example:
  "format_utc \<lparr>t_year = 2025, t_month = 3, t_day = 2, t_hour = 5, t_minute = 4, t_second = 7\<rparr>
     = ''2025-03-02 05:04:07 UTC''"
  by code_simp

lemma dec_examples: "dec 31 = ''31''" "dec 4 = ''4''" "dec 45 = ''45''" "dec 0 = ''0''"
  by code_simp+

text \<open>
  C1. The frame \<open>[0x01, 0xC2, 0x91, ...]\<close> does not decode to measured 45.3: the raw
  value \<open>0x01C2\<close> is 450. Here 45.3 is the double \<open>f64_div 453 10\<close>.
\<close>

theorem parseDecibelData_01_C2_91_counterexample:
  "parseDecibelData \<lparr>t_year = 2025, t_month = 3, t_day = 2, t_hour = 5, t_minute = 4, t_second = 7\<rparr>
     [0x01, 0xC2, 0x91, 0x00, 0x00, 0x00, 0x00, 0x00] \<noteq>
   Inr \<lparr>Timestamp = ''2025-03-02 05:04:07 UTC'', Measured = f64_div 453 10,
        Mode = ''slow'', FreqMode = ''dBC'', Range' = ''30-80''\<rparr>"
  by code_simp

text \<open>
  C1, as amended. Every 8-byte frame whose first three bytes are \<open>[0x01, 0xC2, 0x91]\<close>
  decodes to the reading with measured 45.0, mode slow, frequency mode dBC and
  range 30-80, stamped with the clock of the call.
\<close>

theorem parseDecibelData_01_C2_91:
  assumes "length frame = 8" and "take 3 frame = [0x01, 0xC2, 0x91]"
  shows "parseDecibelData now frame =
           Inr \<lparr>Timestamp = format_utc now, Measured = 45,
                Mode = ''slow'', FreqMode = ''dBC'', Range' = ''30-80''\<rparr>"
proof -
  have len: "3 \<le> length frame" using assms(1) by simp
  have m: "f64_div (of_nat (256 * unat (1 :: byte) + unat (0xC2 :: byte))) 10 = 45"
    using f64_div_450 by simp
  show ?thesis
    unfolding parseDecibelData_Inr [OF len] frame_nths [OF assms] m
    by (simp add: parseMode_def parseFreqMode_def parseRange_def rangeMap_def)
qed

theorem parseDecibelData_01_C2_91_witness:
  "length [0x01, 0xC2, 0x91, 0x00, 0x00, 0x00, 0x00, 0x00 :: byte] = 8 \<and>
   take 3 [0x01, 0xC2, 0x91, 0x00, 0x00, 0x00, 0x00, 0x00 :: byte] = [0x01, 0xC2, 0x91] \<and>
   parseDecibelData \<lparr>t_year = 2025, t_month = 3, t_day = 2, t_hour = 5, t_minute = 4, t_second = 7\<rparr>
     [0x01, 0xC2, 0x91, 0x00, 0x00, 0x00, 0x00, 0x00] =
   Inr \<lparr>Timestamp = ''2025-03-02 05:04:07 UTC'', Measured = 45,
        Mode = ''slow'', FreqMode = ''dBC'', Range' = ''30-80''\<rparr>"
  using parseDecibelData_01_C2_91 [of "[0x01, 0xC2, 0x91, 0x00, 0x00, 0x00, 0x00, 0x00]"
      "\<lparr>t_year = 2025, t_month = 3, t_day = 2, t_hour = 5, t_minute = 4, t_second = 7\<rparr>"]
  by (simp add: format_utc_example)

text \<open>
  C2. Two calls of \<open>parseDecibelData\<close> on the same frame do not give identical
  readings when all fields are included: each call stamps the reading with the
  clock, and the clock moves between the calls.
\<close>

theorem parseDecibelData_twice_counterexample:
  "parseDecibelData \<lparr>t_year = 2025, t_month = 3, t_day = 2, t_hour = 5, t_minute = 4, t_second = 0\<rparr>
     [0x01, 0x3A, 0x40, 0x00, 0x00, 0x00, 0x00, 0x00] \<noteq>
   parseDecibelData \<lparr>t_year = 2025, t_month = 3, t_day = 2, t_hour = 5, t_minute = 4, t_second = 7\<rparr>
     [0x01, 0x3A, 0x40, 0x00, 0x00, 0x00, 0x00, 0x00]"
  by code_simp

text \<open>
  C2, as amended. For every 8-byte frame both calls return a reading, and the two
  readings agree on measured, mode, frequency mode and range. The timestamp of
  each is the formatted clock of its call, so the readings are identical exactly
  when the two clock values format to the same text.
\<close>

theorem parseDecibelData_twice:
  assumes "length frame = 8"
  shows "\<exists>r1 r2. parseDecibelData now1 frame = Inr r1 \<and> parseDecibelData now2 frame = Inr r2 \<and>
           Measured r1 = Measured r2 \<and> Mode r1 = Mode r2 \<and>
           FreqMode r1 = FreqMode r2 \<and> Range' r1 = Range' r2 \<and>
           Timestamp r1 = format_utc now1 \<and> Timestamp r2 = format_utc now2 \<and>
           (r1 = r2 \<longleftrightarrow> format_utc now1 = format_utc now2)"
proof -
  have len: "3 \<le> length frame" using assms by simp
  show ?thesis unfolding parseDecibelData_Inr [OF len] by simp
qed

theorem parseDecibelData_twice_witness:
  "length [0x01, 0x3A, 0x40, 0x00, 0x00, 0x00, 0x00, 0x00 :: byte] = 8 \<and>
   (\<exists>r1 r2.
      parseDecibelData \<lparr>t_year = 2025, t_month = 3, t_day = 2, t_hour = 5, t_minute = 4, t_second = 0\<rparr>
        [0x01, 0x3A, 0x40, 0x00, 0x00, 0x00, 0x00, 0x00] = Inr r1 \<and>
      parseDecibelData \<lparr>t_year = 2025, t_month = 3, t_day = 2, t_hour = 5, t_minute = 4, t_second = 7\<rparr>
        [0x01, 0x3A, 0x40, 0x00, 0x00, 0x00, 0x00, 0x00] = Inr r2 \<and>
      Measured r1 = Measured r2 \<and> Mode r1 = Mode r2 \<and>
      FreqMode r1 = FreqMode r2 \<and> Range' r1 = Range' r2 \<and>
      Timestamp r2 = ''2025-03-02 05:04:07 UTC'')"
  using parseDecibelData_twice [of "[0x01, 0x3A, 0x40, 0x00, 0x00, 0x00, 0x00, 0x00]"
      "\<lparr>t_year = 2025, t_month = 3, t_day = 2, t_hour = 5, t_minute = 4, t_second = 0\<rparr>"
      "\<lparr>t_year = 2025, t_month = 3, t_day = 2, t_hour = 5, t_minute = 4, t_second = 7\<rparr>"]
  by (auto simp add: format_utc_example)

text \<open>
  C4. For every byte \<open>b\<close> the frequency mode is dBC exactly when bit \<open>0x10\<close> or bit
  \<open>0x80\<close> of \<open>b\<close> is set (bit 4 or bit 7), and dBA otherwise.
\<close>

theorem parseFreqMode_dBC_iff:
  "(parseFreqMode b = ''dBC'' \<longleftrightarrow> b AND 0x10 \<noteq> 0 \<or> b AND 0x80 \<noteq> 0) \<and>
   (parseFreqMode b = ''dBA'' \<longleftrightarrow> \<not> (b AND 0x10 \<noteq> 0 \<or> b AND 0x80 \<noteq> 0)) \<and>
   (b AND 0x10 \<noteq> 0 \<longleftrightarrow> bit b 4) \<and> (b AND 0x80 \<noteq> 0 \<longleftrightarrow> bit b 7)"
  unfolding and_bit4 and_bit7 by (simp add: parseFreqMode_def and_bit4 and_bit7)

theorem parseFreqMode_dBC_iff_witness:
  "parseFreqMode 0x91 = ''dBC'' \<and> parseFreqMode 0x80 = ''dBC'' \<and> parseFreqMode 0x10 = ''dBC'' \<and>
   parseFreqMode 0x6F = ''dBA'' \<and> bit (0x91 :: byte) 4 \<and> bit (0x91 :: byte) 7"
  using parseFreqMode_dBC_iff [of "0x91"] parseFreqMode_dBC_iff [of "0x80"]
    parseFreqMode_dBC_iff [of "0x10"] parseFreqMode_dBC_iff [of "0x6F"]
  by simp

text \<open>
  C5. For every byte \<open>b\<close> the range is looked up by the low nibble \<open>b AND 0x0F\<close>
  (the value of \<open>b\<close> modulo 16) in the table 0: 30-130, 1: 30-80, 2: 50-100,
  3: 60-110, 4: 80-130, and is \<open>unknown\<close> exactly for the nibbles 5 to 15; the
  result is always one of these six texts.
\<close>

theorem parseRange_table:
  "parseRange b =
     (if unat b mod 16 = 0 then ''30-130''
      else if unat b mod 16 = 1 then ''30-80''
      else if unat b mod 16 = 2 then ''50-100''
      else if unat b mod 16 = 3 then ''60-110''
      else if unat b mod 16 = 4 then ''80-130''
      else ''unknown'') \<and>
   unat (b AND 0x0F) = unat b mod 16 \<and>
   (unat (b AND 0x0F) \<in> {5..15} \<longleftrightarrow> parseRange b = ''unknown'') \<and>
   parseRange b \<in> {''30-130'', ''30-80'', ''50-100'', ''60-110'', ''80-130'', ''unknown''}"
proof -
  have e: "(b AND 0x0F = w) = (unat b mod 16 = unat w)" for w :: byte
    using low_nibble_unat [of b] by (metis unsigned_word_eqI)
  have l: "unat b mod 16 < 16" by simp
  show ?thesis
    using l by (auto simp add: parseRange_def rangeMap_def e low_nibble_unat)
qed

theorem parseRange_table_witness:
  "parseRange 0x90 = ''30-130'' \<and> parseRange 0x91 = ''30-80'' \<and> parseRange 0x42 = ''50-100'' \<and>
   parseRange 0x03 = ''60-110'' \<and> parseRange 0xF4 = ''80-130'' \<and> parseRange 0x05 = ''unknown'' \<and>
   parseRange 0x0F = ''unknown'' \<and> unat (0x9F AND 0x0F :: byte) \<in> {5..15}"
  using parseRange_table [of "0x90"] parseRange_table [of "0x91"] parseRange_table [of "0x42"]
    parseRange_table [of "0x03"] parseRange_table [of "0xF4"] parseRange_table [of "0x05"]
    parseRange_table [of "0x0F"] parseRange_table [of "0x9F"]
  by simp

text \<open>
  C6. For every pair of bytes \<open>hi\<close>, \<open>lo\<close> at the head of a frame, the measured
  value is the float64 quotient by 10 of the big-endian integer \<open>256 * hi + lo\<close>,
  which is what \<open>(hi << 8) | lo\<close> computes on \<open>uint16\<close>. That double lies within
  \<open>2\<^sup>-\<^sup>4\<^sup>1\<close> of the exact tenth, and printed with one decimal it is exactly the raw
  value with one implied decimal digit.
\<close>

theorem parseDecibelData_measured:
  "\<exists>data. parseDecibelData now (hi # lo # status # rest) = Inr data \<and>
      Measured data = f64_div (of_nat (256 * unat hi + unat lo)) 10 \<and>
      \<bar>Measured data - of_nat (256 * unat hi + unat lo) / 10\<bar> \<le> 1 / 2 ^ 41 \<and>
      sprintf_1f (Measured data) =
        dec ((256 * unat hi + unat lo) div 10) @ ''.'' @ dec ((256 * unat hi + unat lo) mod 10) \<and>
      unat (push_bit 8 (ucast hi :: uint16) OR ucast lo) = 256 * unat hi + unat lo"
proof -
  define k where "k = 256 * unat hi + unat lo"
  have k: "k < 65536" unfolding k_def by (rule big_endian_less)
  have q: "(0::rat) \<le> of_nat k / 10" "(of_nat k :: rat) / 10 < 8192" using k by simp_all
  have "parseDecibelData now (hi # lo # status # rest) =
     Inr \<lparr>Timestamp = format_utc now, Measured = f64_div (of_nat k) 10,
          Mode = parseMode status, FreqMode = parseFreqMode status, Range' = parseRange status\<rparr>"
    using parseDecibelData_Inr [of "hi # lo # status # rest" now] by (simp add: k_def)
  moreover have "\<bar>f64_div (of_nat k) 10 - of_nat k / 10\<bar> \<le> 1 / 2 ^ 41"
    unfolding f64_div_def using f64_round_err [OF q] by simp
  ultimately show ?thesis
    using sprintf_1f_tenths [OF k] big_endian_unat [of hi lo] by (simp add: k_def)
qed

theorem parseDecibelData_measured_witness:
  "\<exists>data. parseDecibelData \<lparr>t_year = 2025, t_month = 3, t_day = 2, t_hour = 5, t_minute = 4, t_second = 0\<rparr>
        [0x01, 0x3A, 0x40, 0x00, 0x00, 0x00, 0x00, 0x00] = Inr data \<and>
      Measured data = f64_div 314 10 \<and>
      \<bar>Measured data - 314 / 10\<bar> \<le> 1 / 2 ^ 41 \<and>
      sprintf_1f (Measured data) = ''31.4''"
  using parseDecibelData_measured [of "\<lparr>t_year = 2025, t_month = 3, t_day = 2, t_hour = 5, t_minute = 4, t_second = 0\<rparr>"
      "0x01" "0x3A" "0x40" "[0x00, 0x00, 0x00, 0x00, 0x00]"]
  by (simp add: dec_examples)

section \<open>Properties of the polling loop and the sinks\<close>

subsection \<open>State changes\<close>

lemma store_length: "length (store buf data) = length buf"
  by (simp add: store_def)

lemma published_append: "published (xs @ ys) = published xs @ published ys"
  by (induction xs rule: published.induct) simp_all

lemma world_printed:
  "stdout (printed l w) = stdout w @ [l]" "logged (printed l w) = logged w" "files (printed l w) = files w"
  by (simp_all add: printed_def)

lemma world_log_printf:
  "stdout (log_printf l w) = stdout w" "logged (log_printf l w) = logged w @ [l]"
  "files (log_printf l w) = files w"
  by (simp_all add: log_printf_def)

lemma world_csv_write:
  "stdout (csv_write p r w) = stdout w" "logged (csv_write p r w) = logged w"
  "files (csv_write p r w) p = Some ((case files w p of None \<Rightarrow> [] | Some rows \<Rightarrow> rows) @ [r])"
  "q \<noteq> p \<Longrightarrow> files (csv_write p r w) q = files w q"
  by (simp_all add: csv_write_def)

lemma sendCommand_fail:
  "w_err wr \<noteq> None \<or> w_n wr \<noteq> 8 \<Longrightarrow>
     sendCommand wr command w = (Some (SendFailed (w_n wr) (w_err wr)), w)"
  by (simp add: sendCommand_def)

lemma sendCommand_ok:
  "w_err wr = None \<Longrightarrow> w_n wr = 8 \<Longrightarrow>
     sendCommand wr command w = (None, printed (CommandSent command) w)"
  by (simp add: sendCommand_def)

lemma poll_iteration_send_failed:
  assumes "w_err (tick_wr t) \<noteq> None \<or> w_n (tick_wr t) \<noteq> 8"
  shows "poll_iteration csvWriter t (buf, w) =
     Inr (buf, log_printf (ErrSendingCapture (SendFailed (w_n (tick_wr t)) (w_err (tick_wr t)))) w)"
  by (simp add: poll_iteration_def sendCommand_fail [OF assms])

lemma poll_iteration_read_failed:
  assumes "w_err (tick_wr t) = None" "w_n (tick_wr t) = 8" "r_err (tick_rd t) = Some e"
  shows "poll_iteration csvWriter t (buf, w) =
     Inr (store buf (r_data (tick_rd t)),
          log_printf (ErrReadingData e) (printed (CommandSent commandCapture) w))"
  by (simp add: poll_iteration_def sendCommand_ok [OF assms(1,2)] assms(3) Let_def)

lemma poll_iteration_no_data:
  assumes "w_err (tick_wr t) = None" "w_n (tick_wr t) = 8" "r_err (tick_rd t) = None"
    "r_n (tick_rd t) \<le> 0"
  shows "poll_iteration csvWriter t (buf, w) =
     Inr (store buf (r_data (tick_rd t)), printed (CommandSent commandCapture) w)"
  using assms(4) by (simp add: poll_iteration_def sendCommand_ok [OF assms(1,2)] assms(3) Let_def)

lemma poll_iteration_data:
  assumes "w_err (tick_wr t) = None" "w_n (tick_wr t) = 8" "r_err (tick_rd t) = None"
    "0 < r_n (tick_rd t)" "parseDecibelData (tick_now t) (store buf (r_data (tick_rd t))) = Inr data"
  shows "poll_iteration csvWriter t (buf, w) =
     Inr (store buf (r_data (tick_rd t)),
          (case csvWriter of Some path \<Rightarrow> csv_write path (csv_record data) | None \<Rightarrow> id)
            (printed (JsonLine data)
              (printed (RawDataRead (r_n (tick_rd t)) (store buf (r_data (tick_rd t))))
                (printed (CommandSent commandCapture) w))))"
  using assms(4)
  by (simp add: poll_iteration_def sendCommand_ok [OF assms(1,2)] assms(3,5) Let_def split: option.split)

subsection \<open>Text of the measured field\<close>






lemma parse_total:
  assumes "length buf = 8"
  shows "\<exists>data. parseDecibelData now buf = Inr data"
proof -
  have len: "3 \<le> length buf" using assms by simp
  show ?thesis unfolding parseDecibelData_Inr [OF len] by simp
qed

lemma sprintf_45: "sprintf_1f 45 = ''45.0''" by code_simp

lemma store_examples:
  "store (replicate 8 0) [0x01, 0x3A, 0x40, 0x00, 0x00, 0x00, 0x00, 0x00] ! 2 = (0x40 :: byte)"
  "store (replicate 8 0) [0x01, 0x3A, 0x40, 0x00, 0x00] ! 2 = (0x40 :: byte)"
  by (simp_all add: store_def)

lemma status_40: "parseMode 0x40 = ''fast''" "parseFreqMode 0x40 = ''dBA''" "parseRange 0x40 = ''30-130''"
  by (simp_all add: parseMode_def parseFreqMode_def parseRange_def rangeMap_def)

subsection \<open>One iteration\<close>

lemma poll_iteration_outcome:
  assumes "length buf = 8"
  shows "\<exists>buf' w' data. poll_iteration csvWriter t (buf, w) = Inr (buf', w') \<and>
           length buf' = 8 \<and>
           parseDecibelData (tick_now t) (store buf (r_data (tick_rd t))) = Inr data \<and>
           published (stdout w') = published (stdout w) @
             (if w_err (tick_wr t) = None \<and> w_n (tick_wr t) = 8 \<and>
                 r_err (tick_rd t) = None \<and> 0 < r_n (tick_rd t) then [data] else []) \<and>
           (\<forall>p. files w' p =
             (if w_err (tick_wr t) = None \<and> w_n (tick_wr t) = 8 \<and>
                 r_err (tick_rd t) = None \<and> 0 < r_n (tick_rd t) \<and> csvWriter = Some p
              then Some ((case files w p of None \<Rightarrow> [] | Some rows \<Rightarrow> rows) @ [csv_record data])
              else files w p))"
proof -
  have len: "length (store buf (r_data (tick_rd t))) = 8" using assms by (simp add: store_length)
  from parse_total [OF len] obtain data
    where data: "parseDecibelData (tick_now t) (store buf (r_data (tick_rd t))) = Inr data" by blast
  consider (send) "w_err (tick_wr t) \<noteq> None \<or> w_n (tick_wr t) \<noteq> 8"
    | (read) e where "w_err (tick_wr t) = None" "w_n (tick_wr t) = 8" "r_err (tick_rd t) = Some e"
    | (empty) "w_err (tick_wr t) = None" "w_n (tick_wr t) = 8" "r_err (tick_rd t) = None"
        "r_n (tick_rd t) \<le> 0"
    | (data) "w_err (tick_wr t) = None" "w_n (tick_wr t) = 8" "r_err (tick_rd t) = None"
        "0 < r_n (tick_rd t)"
    by (cases "r_err (tick_rd t)") force+
  then show ?thesis
  proof cases
    case send
    then show ?thesis
      using assms data by (auto simp add: poll_iteration_send_failed world_log_printf)
  next
    case read
    then show ?thesis
      using len data by (simp add: poll_iteration_read_failed world_log_printf world_printed published_append)
  next
    case empty
    then show ?thesis
      using len data by (simp add: poll_iteration_no_data world_printed published_append)
  next
    case data
    show ?thesis
      unfolding poll_iteration_data [OF data \<open>parseDecibelData _ _ = Inr _\<close>]
      using len data \<open>parseDecibelData _ _ = Inr _\<close>
      by (cases csvWriter) (auto simp add: world_printed world_csv_write published_append)
  qed
qed

text \<open>
  C3. A partial reading is published: a read of 3 bytes without error is decoded
  from the 8-byte buffer and goes to standard output and to the CSV file.
\<close>

theorem poll_iteration_partial_read_counterexample:
  "poll_iteration (Some ''m.csv'')
     \<lparr>tick_wr = \<lparr>w_n = 8, w_err = None\<rparr>,
      tick_rd = \<lparr>r_n = 3, r_err = None, r_data = [0x01, 0xC2, 0x91]\<rparr>,
      tick_now = \<lparr>t_year = 2025, t_month = 3, t_day = 2, t_hour = 5, t_minute = 4, t_second = 7\<rparr>\<rparr>
     (replicate 8 0, \<lparr>stdout = [], logged = [], files = Map.empty\<rparr>) =
   Inr ([0x01, 0xC2, 0x91, 0x00, 0x00, 0x00, 0x00, 0x00],
        \<lparr>stdout = [CommandSent commandCapture,
                   RawDataRead 3 [0x01, 0xC2, 0x91, 0x00, 0x00, 0x00, 0x00, 0x00],
                   JsonLine \<lparr>Timestamp = ''2025-03-02 05:04:07 UTC'', Measured = 45,
                             Mode = ''slow'', FreqMode = ''dBC'', Range' = ''30-80''\<rparr>],
          logged = [],
          files = [''m.csv'' \<mapsto> [[''2025-03-02 05:04:07 UTC'', ''45.0'', ''slow'', ''dBC'', ''30-80'']]]\<rparr>)"
proof -
  have s: "store (replicate 8 0) [0x01, 0xC2, 0x91] = [0x01, 0xC2, 0x91, 0x00, 0x00, 0x00, 0x00, 0x00 :: byte]"
    by (simp add: store_def numeral_eq_Suc)
  have len: "3 \<le> length [0x01, 0xC2, 0x91, 0x00, 0x00, 0x00, 0x00, 0x00 :: byte]" by simp
  have m: "f64_div (of_nat (256 * unat (1 :: byte) + unat (0xC2 :: byte))) 10 = 45"
    using f64_div_450 by simp
  have p: "parseDecibelData \<lparr>t_year = 2025, t_month = 3, t_day = 2, t_hour = 5, t_minute = 4, t_second = 7\<rparr>
       [0x01, 0xC2, 0x91, 0x00, 0x00, 0x00, 0x00, 0x00] =
     Inr \<lparr>Timestamp = ''2025-03-02 05:04:07 UTC'', Measured = 45,
          Mode = ''slow'', FreqMode = ''dBC'', Range' = ''30-80''\<rparr>"
    unfolding parseDecibelData_Inr [OF len] format_utc_example
    using m by (simp add: parseMode_def parseFreqMode_def parseRange_def rangeMap_def)
  show ?thesis
    by (simp add: poll_iteration_def sendCommand_def s p Let_def printed_def csv_write_def
        csv_record_def sprintf_45)
qed

text \<open>
  C3, as amended. In every iteration on the 8-byte buffer, a reading is published
  exactly when the command was sent, the read returned no error and its byte count
  is positive; the reading is the decoding of the buffer after the read, it is
  printed as JSON and, with a CSV writer, appended to its file. In every other
  case (failed send, read error, zero-length read) nothing is published and no
  file changes.
\<close>

theorem poll_iteration_publishes:
  assumes "length buf = 8"
  shows "\<exists>buf' w' data. poll_iteration csvWriter t (buf, w) = Inr (buf', w') \<and>
           length buf' = 8 \<and>
           parseDecibelData (tick_now t) (store buf (r_data (tick_rd t))) = Inr data \<and>
           published (stdout w') = published (stdout w) @
             (if w_err (tick_wr t) = None \<and> w_n (tick_wr t) = 8 \<and>
                 r_err (tick_rd t) = None \<and> 0 < r_n (tick_rd t) then [data] else []) \<and>
           (\<forall>p. files w' p =
             (if w_err (tick_wr t) = None \<and> w_n (tick_wr t) = 8 \<and>
                 r_err (tick_rd t) = None \<and> 0 < r_n (tick_rd t) \<and> csvWriter = Some p
              then Some ((case files w p of None \<Rightarrow> [] | Some rows \<Rightarrow> rows) @ [csv_record data])
              else files w p))"
  using assms by (rule poll_iteration_outcome)

theorem poll_iteration_publishes_witness:
  "length (replicate 8 (0 :: byte)) = 8 \<and>
   (\<exists>buf' w' data.
      poll_iteration (Some ''m.csv'')
        \<lparr>tick_wr = \<lparr>w_n = 8, w_err = None\<rparr>,
         tick_rd = \<lparr>r_n = 3, r_err = None, r_data = [0x01, 0xC2, 0x91]\<rparr>,
         tick_now = \<lparr>t_year = 2025, t_month = 3, t_day = 2, t_hour = 5, t_minute = 4, t_second = 7\<rparr>\<rparr>
        (replicate 8 0, \<lparr>stdout = [], logged = [], files = Map.empty\<rparr>) = Inr (buf', w') \<and>
      published (stdout w') = [data] \<and>
      files w' ''m.csv'' = Some [csv_record data] \<and> files w' ''other.csv'' = None)"
  using poll_iteration_publishes [of "replicate 8 0" "Some ''m.csv''"
      "\<lparr>tick_wr = \<lparr>w_n = 8, w_err = None\<rparr>,
        tick_rd = \<lparr>r_n = 3, r_err = None, r_data = [0x01, 0xC2, 0x91]\<rparr>,
        tick_now = \<lparr>t_year = 2025, t_month = 3, t_day = 2, t_hour = 5, t_minute = 4, t_second = 7\<rparr>\<rparr>"
      "\<lparr>stdout = [], logged = [], files = Map.empty\<rparr>"]
  by auto

text \<open>
  C8. Sending a command fails exactly when the device write returns an error or a
  byte count other than 8. In the polling loop such a failure is recoverable: the
  iteration only logs one diagnostic, leaves buffer, standard output and files as
  they were, and the loop goes on with the remaining iterations.
\<close>

theorem sendCommand_fails_iff:
  "((\<exists>e. fst (sendCommand wr command w) = Some e) \<longleftrightarrow> w_err wr \<noteq> None \<or> w_n wr \<noteq> 8) \<and>
   (tick_wr t = wr \<and> (w_err wr \<noteq> None \<or> w_n wr \<noteq> 8) \<longrightarrow>
      (\<exists>w'. poll_iteration csvWriter t (buf, w) = Inr (buf, w') \<and>
            logged w' = logged w @ [ErrSendingCapture (SendFailed (w_n wr) (w_err wr))] \<and>
            stdout w' = stdout w \<and> files w' = files w \<and>
            poll_loop csvWriter (t # ts) (buf, w) = poll_loop csvWriter ts (buf, w')))"
proof -
  have "(\<exists>e. fst (sendCommand wr command w) = Some e) \<longleftrightarrow> w_err wr \<noteq> None \<or> w_n wr \<noteq> 8"
    by (simp add: sendCommand_def)
  moreover have "\<exists>w'. poll_iteration csvWriter t (buf, w) = Inr (buf, w') \<and>
            logged w' = logged w @ [ErrSendingCapture (SendFailed (w_n wr) (w_err wr))] \<and>
            stdout w' = stdout w \<and> files w' = files w \<and>
            poll_loop csvWriter (t # ts) (buf, w) = poll_loop csvWriter ts (buf, w')"
    if "tick_wr t = wr" and "w_err wr \<noteq> None \<or> w_n wr \<noteq> 8"
  proof -
    from that have f: "w_err (tick_wr t) \<noteq> None \<or> w_n (tick_wr t) \<noteq> 8" by simp
    show ?thesis
      using that(1) by (simp add: poll_iteration_send_failed [OF f] world_log_printf)
  qed
  ultimately show ?thesis by blast
qed

theorem sendCommand_fails_iff_witness:
  "(\<exists>e. fst (sendCommand \<lparr>w_n = 3, w_err = None\<rparr> commandCapture
             \<lparr>stdout = [], logged = [], files = Map.empty\<rparr>) = Some e) \<and>
   (\<exists>w'. poll_iteration None
            \<lparr>tick_wr = \<lparr>w_n = 3, w_err = None\<rparr>,
             tick_rd = \<lparr>r_n = 8, r_err = None, r_data = [0x01, 0x3A, 0x40, 0, 0, 0, 0, 0]\<rparr>,
             tick_now = \<lparr>t_year = 2025, t_month = 3, t_day = 2, t_hour = 5, t_minute = 4, t_second = 7\<rparr>\<rparr>
            (replicate 8 0, \<lparr>stdout = [], logged = [], files = Map.empty\<rparr>) = Inr (replicate 8 0, w') \<and>
          logged w' = [ErrSendingCapture (SendFailed 3 None)] \<and> stdout w' = [] \<and>
          files w' = Map.empty \<and>
          poll_loop None
            [\<lparr>tick_wr = \<lparr>w_n = 3, w_err = None\<rparr>,
              tick_rd = \<lparr>r_n = 8, r_err = None, r_data = [0x01, 0x3A, 0x40, 0, 0, 0, 0, 0]\<rparr>,
              tick_now = \<lparr>t_year = 2025, t_month = 3, t_day = 2, t_hour = 5, t_minute = 4, t_second = 7\<rparr>\<rparr>]
            (replicate 8 0, \<lparr>stdout = [], logged = [], files = Map.empty\<rparr>) = Inr (replicate 8 0, w'))"
  using sendCommand_fails_iff [of "\<lparr>w_n = 3, w_err = None\<rparr>" commandCapture
      "\<lparr>stdout = [], logged = [], files = Map.empty\<rparr>"
      "\<lparr>tick_wr = \<lparr>w_n = 3, w_err = None\<rparr>,
        tick_rd = \<lparr>r_n = 8, r_err = None, r_data = [0x01, 0x3A, 0x40, 0, 0, 0, 0, 0]\<rparr>,
        tick_now = \<lparr>t_year = 2025, t_month = 3, t_day = 2, t_hour = 5, t_minute = 4, t_second = 7\<rparr>\<rparr>"
      None "replicate 8 0" "[]"]
  by simp

text \<open>
  C9. An iteration whose read returns zero bytes and no error publishes nothing:
  standard output gains only the line of the command sent, no JSON record, the
  log gains no diagnostic, no file changes, and the loop goes on with the
  remaining iterations.
\<close>

theorem poll_iteration_zero_length_read:
  assumes "w_err (tick_wr t) = None" and "w_n (tick_wr t) = 8"
    and "r_err (tick_rd t) = None" and "r_n (tick_rd t) = 0"
  shows "\<exists>buf' w'. poll_iteration csvWriter t (buf, w) = Inr (buf', w') \<and>
           stdout w' = stdout w @ [CommandSent commandCapture] \<and>
           published (stdout w') = published (stdout w) \<and>
           logged w' = logged w \<and> files w' = files w \<and>
           poll_loop csvWriter (t # ts) (buf, w) = poll_loop csvWriter ts (buf', w')"
proof -
  have z: "r_n (tick_rd t) \<le> 0" using assms(4) by simp
  show ?thesis
    by (simp add: poll_iteration_no_data [OF assms(1,2,3) z] world_printed published_append)
qed

theorem poll_iteration_zero_length_read_witness:
  "w_err \<lparr>w_n = 8, w_err = None\<rparr> = None \<and> w_n \<lparr>w_n = 8, w_err = None\<rparr> = 8 \<and>
   r_err \<lparr>r_n = 0, r_err = None, r_data = []\<rparr> = None \<and>
   r_n \<lparr>r_n = 0, r_err = None, r_data = []\<rparr> = 0 \<and>
   (\<exists>buf' w'.
      poll_iteration (Some ''m.csv'')
        \<lparr>tick_wr = \<lparr>w_n = 8, w_err = None\<rparr>,
         tick_rd = \<lparr>r_n = 0, r_err = None, r_data = []\<rparr>,
         tick_now = \<lparr>t_year = 2025, t_month = 3, t_day = 2, t_hour = 5, t_minute = 4, t_second = 7\<rparr>\<rparr>
        (replicate 8 0, \<lparr>stdout = [], logged = [], files = Map.empty\<rparr>) = Inr (buf', w') \<and>
      stdout w' = [CommandSent commandCapture] \<and> published (stdout w') = [] \<and>
      logged w' = [] \<and> files w' ''m.csv'' = None)"
  using poll_iteration_zero_length_read [of
      "\<lparr>tick_wr = \<lparr>w_n = 8, w_err = None\<rparr>,
        tick_rd = \<lparr>r_n = 0, r_err = None, r_data = []\<rparr>,
        tick_now = \<lparr>t_year = 2025, t_month = 3, t_day = 2, t_hour = 5, t_minute = 4, t_second = 7\<rparr>\<rparr>"
      "Some ''m.csv''" "replicate 8 0" "\<lparr>stdout = [], logged = [], files = Map.empty\<rparr>" "[]"]
  by auto

subsection \<open>The initial probe\<close>

text \<open>
  C10. Once the initial capture command is sent, \<open>readCurrentMode\<close> answers a read
  of fewer than 6 bytes as it answers a read error: three times \<open>unknown\<close> and an
  error. It returns a triple without error only when the read succeeded with at
  least 6 bytes, and the triple is then decoded from byte 2 of the buffer.
\<close>

theorem readCurrentMode_short_read:
  "(w_err wr = None \<and> w_n wr = 8 \<and> (r_err rd \<noteq> None \<or> r_n rd < 6) \<longrightarrow>
      fst (readCurrentMode wr rd w) =
        (''unknown'', ''unknown'', ''unknown'', Some (InitialReadFailed (r_err rd)))) \<and>
   (w_err wr = None \<and> w_n wr = 8 \<and> r_err rd = None \<and> 6 \<le> r_n rd \<longrightarrow>
      fst (readCurrentMode wr rd w) =
        (parseMode (store (replicate 8 0) (r_data rd) ! 2),
         parseFreqMode (store (replicate 8 0) (r_data rd) ! 2),
         parseRange (store (replicate 8 0) (r_data rd) ! 2), None)) \<and>
   (\<forall>m f r. fst (readCurrentMode wr rd w) = (m, f, r, None) \<longrightarrow>
      r_err rd = None \<and> 6 \<le> r_n rd \<and>
      m = parseMode (store (replicate 8 0) (r_data rd) ! 2) \<and>
      f = parseFreqMode (store (replicate 8 0) (r_data rd) ! 2) \<and>
      r = parseRange (store (replicate 8 0) (r_data rd) ! 2))"
  by (auto simp add: readCurrentMode_def sendCommand_def Let_def split: if_splits)

theorem readCurrentMode_short_read_witness:
  "fst (readCurrentMode \<lparr>w_n = 8, w_err = None\<rparr>
          \<lparr>r_n = 5, r_err = None, r_data = [0x01, 0x3A, 0x40, 0x00, 0x00]\<rparr>
          \<lparr>stdout = [], logged = [], files = Map.empty\<rparr>) =
     (''unknown'', ''unknown'', ''unknown'', Some (InitialReadFailed None)) \<and>
   fst (readCurrentMode \<lparr>w_n = 8, w_err = None\<rparr>
          \<lparr>r_n = 8, r_err = None, r_data = [0x01, 0x3A, 0x40, 0x00, 0x00, 0x00, 0x00, 0x00]\<rparr>
          \<lparr>stdout = [], logged = [], files = Map.empty\<rparr>) =
     (''fast'', ''dBA'', ''30-130'', None)"
proof -
  have a: "fst (readCurrentMode \<lparr>w_n = 8, w_err = None\<rparr>
          \<lparr>r_n = 5, r_err = None, r_data = [0x01, 0x3A, 0x40, 0x00, 0x00]\<rparr>
          \<lparr>stdout = [], logged = [], files = Map.empty\<rparr>) =
     (''unknown'', ''unknown'', ''unknown'',
      Some (InitialReadFailed (r_err \<lparr>r_n = 5, r_err = None, r_data = [0x01, 0x3A, 0x40, 0x00, 0x00]\<rparr>)))"
    by (rule readCurrentMode_short_read [THEN conjunct1, rule_format]) simp
  have b: "fst (readCurrentMode \<lparr>w_n = 8, w_err = None\<rparr>
          \<lparr>r_n = 8, r_err = None, r_data = [0x01, 0x3A, 0x40, 0x00, 0x00, 0x00, 0x00, 0x00]\<rparr>
          \<lparr>stdout = [], logged = [], files = Map.empty\<rparr>) =
     (parseMode (store (replicate 8 0)
        (r_data \<lparr>r_n = 8, r_err = None, r_data = [0x01, 0x3A, 0x40, 0x00, 0x00, 0x00, 0x00, 0x00]\<rparr>) ! 2),
      parseFreqMode (store (replicate 8 0)
        (r_data \<lparr>r_n = 8, r_err = None, r_data = [0x01, 0x3A, 0x40, 0x00, 0x00, 0x00, 0x00, 0x00]\<rparr>) ! 2),
      parseRange (store (replicate 8 0)
        (r_data \<lparr>r_n = 8, r_err = None, r_data = [0x01, 0x3A, 0x40, 0x00, 0x00, 0x00, 0x00, 0x00]\<rparr>) ! 2),
      None)"
    by (rule readCurrentMode_short_read [THEN conjunct2, THEN conjunct1, rule_format]) simp
  show ?thesis
    unfolding a b read_result.select_convs store_examples status_40 by simp
qed

subsection \<open>The CSV log over whole runs\<close>










end
